theory Spec2Isabelle
  imports Main "HOL-Library.Sublist"
begin

section \<open>Locator validation: \<open>src/tools/locator-validation/check-locators.ts\<close>\<close>

text \<open>
  A shallow embedding of \<open>check_locators_from_file\<close> and of its helper
  \<open>findAlternateLocators\<close>. JavaScript strings are modelled as \<^typ>\<open>string\<close>; the
  empty string is the only falsy string, and a field that is \<open>undefined\<close> in the
  JavaScript object is modelled by the empty string as well (both are falsy, and the
  code only ever tests these fields for truthiness before using them).
\<close>

subsection \<open>JavaScript string primitives used by the code\<close>

text \<open>\<open>a || b\<close> on strings: the left operand when it is truthy, else the right one.\<close>

definition jsOr :: "string \<Rightarrow> string \<Rightarrow> string" where
  "jsOr a b = (if a \<noteq> [] then a else b)"

text \<open>
  \<open>String.prototype.toLowerCase\<close>, on the Latin letters \<open>A\<close> to \<open>Z\<close>; every other
  character is left as it is.
\<close>

definition lowerChar :: "char \<Rightarrow> char" where
  "lowerChar c =
     (let n = (of_char c :: nat) in if 65 \<le> n \<and> n \<le> 90 then char_of (n + 32) else c)"

definition toLowerCase :: "string \<Rightarrow> string" where
  "toLowerCase s = map lowerChar s"

text \<open>\<open>String.prototype.startsWith\<close> and \<open>String.prototype.includes\<close> (named \<open>includes_js\<close> here).\<close>

fun startsWith :: "string \<Rightarrow> string \<Rightarrow> bool" where
  "startsWith s [] = True"
| "startsWith [] (c # t) = False"
| "startsWith (a # s) (c # t) = (a = c \<and> startsWith s t)"

fun includes_js :: "string \<Rightarrow> string \<Rightarrow> bool" where
  "includes_js [] t = (t = [])"
| "includes_js (a # s) t = (startsWith (a # s) t \<or> includes_js s t)"

subsection \<open>Data model\<close>

text \<open>\<open>interface UserLocatorEntry\<close>.\<close>

record UserLocatorEntry =
  pageName :: string
  pageElementName :: string
  LocatorStrategy :: string
  Locators :: string
  fieldName :: string
  timestamp :: string
  remarks :: string
  AutoHeal :: string

text \<open>
  Modelled from the spec: the type \<open>ElementWithLocators\<close> of the snapshot's elements is
  declared in \<open>locators/generate-all-locators.ts\<close>, whose source is absent. Its fields
  here are those of the specification's Element Node that \<open>findAlternateLocators\<close>
  reads (\<open>tagName\<close>, \<open>text\<close>, \<open>contentDesc\<close>, \<open>resourceId\<close>) and the Locator
  Candidate Map \<open>locators\<close>, given as the list \<open>Object.entries\<close> enumerates:
  (strategy, selector) pairs in property order.
\<close>

record ElementWithLocators =
  el_tagName :: string
  el_text :: string
  el_contentDesc :: string
  el_resourceId :: string
  el_locators :: "(string \<times> string) list"

text \<open>The alternates \<open>{ strategy, selector, tagName }\<close>.\<close>

record AlternateLocator =
  strategy :: string
  selector :: string
  tagName :: string

subsection \<open>\<open>findAlternateLocators\<close>\<close>

text \<open>\<open>Array.prototype.findIndex\<close>: the first index whose item satisfies the predicate, else -1.\<close>

fun findIndex :: "('a \<Rightarrow> bool) \<Rightarrow> 'a list \<Rightarrow> int" where
  "findIndex P [] = - 1"
| "findIndex P (x # xs) =
     (if P x then 0 else (let r = findIndex P xs in if r < 0 then - 1 else r + 1))"

text \<open>\<open>userLocator.fieldName || userLocator.remarks || userLocator.pageElementName\<close>.\<close>

definition targetText :: "UserLocatorEntry \<Rightarrow> string" where
  "targetText userLocator =
     jsOr (jsOr (fieldName userLocator) (remarks userLocator)) (pageElementName userLocator)"

text \<open>\<open>element.text || element.contentDesc || element.resourceId\<close>.\<close>

definition elementText :: "ElementWithLocators \<Rightarrow> string" where
  "elementText element =
     jsOr (jsOr (el_text element) (el_contentDesc element)) (el_resourceId element)"

text \<open>The condition of the first \<open>if\<close> of the loop body.\<close>

definition textSimilar :: "UserLocatorEntry \<Rightarrow> ElementWithLocators \<Rightarrow> bool" where
  "textSimilar userLocator element =
     (elementText element \<noteq> [] \<and> targetText userLocator \<noteq> [] \<and>
      includes_js (toLowerCase (elementText element)) (toLowerCase (targetText userLocator)))"

text \<open>
  The object literal \<open>{ strategy, selector, tagName: element.tagName }\<close> both blocks of
  the loop body push, for one entry of \<open>Object.entries(element.locators)\<close>.
\<close>

definition alternateOf :: "ElementWithLocators \<Rightarrow> string \<times> string \<Rightarrow> AlternateLocator" where
  "alternateOf element entry =
     \<lparr>strategy = fst entry, selector = snd entry, tagName = el_tagName element\<rparr>"

text \<open>
  The first block of the loop body: when the element's text is similar, one alternate
  is pushed for every entry of \<open>element.locators\<close>.
\<close>

definition pushTextSimilar ::
  "UserLocatorEntry \<Rightarrow> ElementWithLocators \<Rightarrow> AlternateLocator list \<Rightarrow> AlternateLocator list"
where
  "pushTextSimilar userLocator element alternates =
     (if textSimilar userLocator element
      then alternates @
           map (alternateOf element) (el_locators element)
      else alternates)"

text \<open>
  The second block: for every value of \<open>element.locators\<close> that is the user's selector,
  one alternate is pushed for every entry whose strategy is not the user's.
\<close>

definition pushExactMatch ::
  "UserLocatorEntry \<Rightarrow> ElementWithLocators \<Rightarrow> AlternateLocator list \<Rightarrow> AlternateLocator list"
where
  "pushExactMatch userLocator element alternates =
     foldl (\<lambda>acc sel0.
        if sel0 = Locators userLocator
        then acc @
             map (alternateOf element)
               (filter (\<lambda>(st, sel). st \<noteq> LocatorStrategy userLocator) (el_locators element))
        else acc)
       alternates (map snd (el_locators element))"

text \<open>The \<open>for (const element of allCurrentPageElements)\<close> loop.\<close>

definition collectAlternates ::
  "UserLocatorEntry \<Rightarrow> ElementWithLocators list \<Rightarrow> AlternateLocator list"
where
  "collectAlternates userLocator allCurrentPageElements =
     foldl (\<lambda>alternates element.
              pushExactMatch userLocator element (pushTextSimilar userLocator element alternates))
       [] allCurrentPageElements"

text \<open>
  \<open>alternates.filter((item, index, self) => index === self.findIndex(t => ...))\<close>.
\<close>

definition uniqueAlternates :: "AlternateLocator list \<Rightarrow> AlternateLocator list" where
  "uniqueAlternates alternates =
     map snd
       (filter (\<lambda>(index, item).
            int index =
              findIndex (\<lambda>t. strategy t = strategy item \<and> selector t = selector item) alternates)
          (enumerate 0 alternates))"

definition findAlternateLocators ::
  "UserLocatorEntry \<Rightarrow> ElementWithLocators list \<Rightarrow> AlternateLocator list"
where
  "findAlternateLocators userLocator allCurrentPageElements =
     take 5 (uniqueAlternates (collectAlternates userLocator allCurrentPageElements))"

subsection \<open>The session, the file system and the tool's \<open>execute\<close>\<close>

text \<open>
  A thrown JavaScript error, with its \<open>name\<close> and \<open>message\<close>; \<open>errToString\<close> is
  \<open>Error.prototype.toString\<close> and \<open>newError\<close> is \<open>new Error(msg)\<close>.
\<close>

datatype jsError = JsError (errName: string) (errMessage: string)

definition errToString :: "jsError \<Rightarrow> string" where
  "errToString e =
     (if errName e = [] then errMessage e
      else if errMessage e = [] then errName e
      else errName e @ '': '' @ errMessage e)"

definition newError :: "string \<Rightarrow> jsError" where
  "newError msg = JsError ''Error'' msg"

text \<open>
  The driver object returned by \<open>getDriver()\<close>: what its three members answer.
  \<open>automationName\<close> is \<open>driver.caps.automationName\<close>, \<open>None\<close> when it is undefined.
  The handle a successful \<open>findElement\<close> returns is never read, hence \<^typ>\<open>unit\<close>.
  The screen is taken to stay as it is during one call: what a resolution answers
  depends on the strategy and the selector only.
\<close>

record Session =
  getPageSource :: "jsError + string"
  automationName :: "string option"
  findElement :: "string \<Rightarrow> string \<Rightarrow> jsError + unit"

text \<open>
  The trace of one call: every read of the page source, of the automation name, every
  call of the locator generator and every element resolution, in the order they happen.
\<close>

datatype event =
    GetPageSource
  | ReadAutomationName
  | GenerateLocators
  | FindElement string string

text \<open>What \<open>JSON.parse\<close> returns for the locator file: an array of entries or another value.\<close>

datatype jsonValue = JArray "UserLocatorEntry list" | JNotArray

text \<open>
  Everything outside \<open>check-locators.ts\<close> that \<open>execute\<close> calls:
  \<open>getDriver\<close> of the session store, \<open>path.resolve\<close>, \<open>fs.existsSync\<close>,
  \<open>fs.readFileSync\<close>, \<open>JSON.parse\<close> and \<open>generateAllElementLocators\<close> of
  \<open>locators/generate-all-locators.ts\<close>. Each is a parameter of the model: what it
  answers is given, not computed.
\<close>

record Env =
  getDriver :: "Session option"
  path_resolve :: "string \<Rightarrow> string"
  existsSync :: "string \<Rightarrow> bool"
  readFileSync :: "string \<Rightarrow> jsError + string"
  JSON_parse :: "string \<Rightarrow> jsError + jsonValue"
  generateAllElementLocators :: "string \<Rightarrow> bool \<Rightarrow> string \<Rightarrow> jsError + ElementWithLocators list"

record Args =
  locatorFilePath :: string

text \<open>\<open>interface ValidationResult\<close>; the two optional members are \<open>None\<close> when absent.\<close>

record ValidationResult =
  r_pageName :: string
  r_pageElementName :: string
  primaryStrategy :: string
  primaryLocator :: string
  found :: bool
  alternateLocators :: "AlternateLocator list option"
  error :: "string option"

text \<open>The object serialised into the tool's answer.\<close>

record FoundLocator =
  fl_pageName :: string
  fl_pageElementName :: string
  fl_strategy :: string
  fl_selector :: string

record MissingLocator =
  ml_pageName :: string
  ml_pageElementName :: string
  ml_primaryStrategy :: string
  ml_primaryLocator :: string
  ml_alternateLocators :: "AlternateLocator list option"
  ml_error :: "string option"

record Report =
  totalChecked :: nat
  foundCount :: nat
  missingCount :: nat
  foundLocators :: "FoundLocator list"
  missingLocators :: "MissingLocator list"
  message :: string

text \<open>A number inside a template literal: its decimal digits.\<close>

fun showNat :: "nat \<Rightarrow> string" where
  "showNat n =
     (if n < 10 then [char_of (48 + n)]
      else showNat (n div 10) @ [char_of (48 + n mod 10)])"

declare showNat.simps [simp del]

text \<open>
  The body of \<open>for (const userLocator of userLocators)\<close> pushes one object onto
  \<open>results\<close>: the one of the \<open>try\<close> when \<open>driver.findElement\<close> returns, the one
  of the \<open>catch\<close> when it throws.
\<close>

definition entryResult ::
  "Session \<Rightarrow> ElementWithLocators list \<Rightarrow> UserLocatorEntry \<Rightarrow> ValidationResult"
where
  "entryResult driver allCurrentPageElements userLocator =
     (case findElement driver (LocatorStrategy userLocator) (Locators userLocator) of
        Inr element \<Rightarrow>
          \<lparr>r_pageName = pageName userLocator,
           r_pageElementName = pageElementName userLocator,
           primaryStrategy = LocatorStrategy userLocator,
           primaryLocator = Locators userLocator,
           found = True,
           alternateLocators = None,
           error = None\<rparr>
      | Inl err \<Rightarrow>
          \<lparr>r_pageName = pageName userLocator,
           r_pageElementName = pageElementName userLocator,
           primaryStrategy = LocatorStrategy userLocator,
           primaryLocator = Locators userLocator,
           found = False,
           alternateLocators = Some (findAlternateLocators userLocator allCurrentPageElements),
           error = Some (errToString err)\<rparr>)"

text \<open>
  One turn of the loop on its state, the \<open>results\<close> array and the trace: the element
  resolution is attempted and the entry's result is pushed.
\<close>

definition validateEntry ::
  "Session \<Rightarrow> ElementWithLocators list \<Rightarrow> ValidationResult list \<times> event list \<Rightarrow>
   UserLocatorEntry \<Rightarrow> ValidationResult list \<times> event list"
where
  "validateEntry driver allCurrentPageElements state userLocator =
     (fst state @ [entryResult driver allCurrentPageElements userLocator],
      snd state @ [FindElement (LocatorStrategy userLocator) (Locators userLocator)])"

definition validateAll ::
  "Session \<Rightarrow> ElementWithLocators list \<Rightarrow> event list \<Rightarrow> UserLocatorEntry list \<Rightarrow>
   ValidationResult list \<times> event list"
where
  "validateAll driver allCurrentPageElements trace userLocators =
     foldl (validateEntry driver allCurrentPageElements) ([], trace) userLocators"

text \<open>The object built after the loop, from \<open>results\<close>.\<close>

definition buildReport :: "ValidationResult list \<Rightarrow> Report" where
  "buildReport results =
     (let foundLocators = filter (\<lambda>result. found result) results;
          missingLocators = filter (\<lambda>result. \<not> found result) results
      in \<lparr>totalChecked = length results,
          foundCount = length foundLocators,
          missingCount = length missingLocators,
          foundLocators =
            map (\<lambda>loc. \<lparr>fl_pageName = r_pageName loc,
                         fl_pageElementName = r_pageElementName loc,
                         fl_strategy = primaryStrategy loc,
                         fl_selector = primaryLocator loc\<rparr>) foundLocators,
          missingLocators =
            map (\<lambda>loc. \<lparr>ml_pageName = r_pageName loc,
                         ml_pageElementName = r_pageElementName loc,
                         ml_primaryStrategy = primaryStrategy loc,
                         ml_primaryLocator = primaryLocator loc,
                         ml_alternateLocators = alternateLocators loc,
                         ml_error = error loc\<rparr>) missingLocators,
          message =
            ''Checked '' @ showNat (length results) @ '' locators: '' @
            showNat (length foundLocators) @ '' found, '' @
            showNat (length missingLocators) @ '' missing''\<rparr>)"

text \<open>
  The first statements of the \<open>try\<close> block: the locator file is resolved, read, parsed
  and checked to be an array. Nothing here touches the driver.
\<close>

definition readLocatorFile :: "Env \<Rightarrow> Args \<Rightarrow> jsError + UserLocatorEntry list" where
  "readLocatorFile env args =
     (let locatorFilePath = path_resolve env (locatorFilePath args)
      in if \<not> existsSync env locatorFilePath
         then Inl (newError (''Locator file not found: '' @ locatorFilePath))
         else
           (case readFileSync env locatorFilePath of
              Inl err \<Rightarrow> Inl err
            | Inr fileContent \<Rightarrow>
                (case JSON_parse env fileContent of
                   Inl err \<Rightarrow> Inl err
                 | Inr JNotArray \<Rightarrow>
                     Inl (newError ''Locator file must contain an array of locator objects'')
                 | Inr (JArray userLocators) \<Rightarrow> Inr userLocators)))"

text \<open>
  The next statements: the page source and the automation name are read from the
  driver and handed to \<open>generateAllElementLocators\<close>. Reading \<open>toLowerCase\<close> of an
  undefined automation name throws a \<open>TypeError\<close>.
\<close>

definition captureSnapshot ::
  "Env \<Rightarrow> Session \<Rightarrow> (jsError + ElementWithLocators list) \<times> event list"
where
  "captureSnapshot env driver =
     (case getPageSource driver of
        Inl err \<Rightarrow> (Inl err, [GetPageSource])
      | Inr pageSource \<Rightarrow>
          (case automationName driver of
             None \<Rightarrow>
               (Inl (JsError ''TypeError'' ''Cannot read properties of undefined''),
                [GetPageSource, ReadAutomationName])
           | Some name \<Rightarrow>
               (let driverName = toLowerCase name
                in (generateAllElementLocators env pageSource True driverName,
                    [GetPageSource, ReadAutomationName, GenerateLocators]))))"

text \<open>The whole \<open>try\<close> block.\<close>

definition tryBlock :: "Env \<Rightarrow> Session \<Rightarrow> Args \<Rightarrow> (jsError + Report) \<times> event list" where
  "tryBlock env driver args =
     (case readLocatorFile env args of
        Inl err \<Rightarrow> (Inl err, [])
      | Inr userLocators \<Rightarrow>
          (case captureSnapshot env driver of
             (Inl err, trace) \<Rightarrow> (Inl err, trace)
           | (Inr allCurrentPageElements, trace) \<Rightarrow>
               (let state = validateAll driver allCurrentPageElements trace userLocators
                in (Inr (buildReport (fst state)), snd state))))"

text \<open>
  \<open>execute\<close>: the driver check, then the \<open>try\<close> block, whose errors the \<open>catch\<close>
  wraps into \<open>Failed to check locators: ...\<close>. The result is the report or the error
  thrown, together with the trace of the call.
\<close>

definition execute :: "Env \<Rightarrow> Args \<Rightarrow> (jsError + Report) \<times> event list" where
  "execute env args =
     (case getDriver env of
        None \<Rightarrow>
          (Inl (newError ''No active driver session. Please create a session first.''), [])
      | Some driver \<Rightarrow>
          (case tryBlock env driver args of
             (Inl err, trace) \<Rightarrow>
               (Inl (newError (''Failed to check locators: '' @ errMessage err)), trace)
           | (Inr report, trace) \<Rightarrow> (Inr report, trace)))"

subsection \<open>The specification's notions\<close>

text \<open>
  The definitions of this subsection follow the wording of the specification, not the
  code; the theorems below compare them with the code.

  ``First non-empty wins'': the first string of a priority list that is not empty, and
  the empty string when there is none.
\<close>

fun firstNonEmpty :: "string list \<Rightarrow> string" where
  "firstNonEmpty [] = []"
| "firstNonEmpty (s # ss) = (if s \<noteq> [] then s else firstNonEmpty ss)"

text \<open>
  ``Case-insensitively contains'': the lower-cased needle is a contiguous part of the
  lower-cased text.
\<close>

definition containsIgnoringCase :: "string \<Rightarrow> string \<Rightarrow> bool" where
  "containsIgnoringCase hay needle = sublist (toLowerCase needle) (toLowerCase hay)"

text \<open>
  ``Exact selector reuse'': one of the node's own candidate selectors is identical to
  the user's failed selector.
\<close>

definition exactSelectorReuse :: "UserLocatorEntry \<Rightarrow> ElementWithLocators \<Rightarrow> bool" where
  "exactSelectorReuse userLocator element =
     (Locators userLocator \<in> set (map snd (el_locators element)))"

text \<open>The \<open>(strategy, selector)\<close> pair of an alternate, by which alternates are deduplicated.\<close>

definition pairOf :: "AlternateLocator \<Rightarrow> string \<times> string" where
  "pairOf a = (strategy a, selector a)"

text \<open>
  ``Deduplicate by \<open>(strategy, selector)\<close> pair, preserving first-seen order'': an
  alternate is kept when its pair has not been seen before it.
\<close>

fun keepFirstSeen ::
  "(string \<times> string) list \<Rightarrow> AlternateLocator list \<Rightarrow> AlternateLocator list"
where
  "keepFirstSeen seen [] = []"
| "keepFirstSeen seen (a # as) =
     (if (strategy a, selector a) \<in> set seen then keepFirstSeen seen as
      else a # keepFirstSeen ((strategy a, selector a) # seen) as)"

text \<open>
  The alternates one turn of the loop of \<open>findAlternateLocators\<close> pushes for a node:
  the loop body run on an empty array.
\<close>

definition elementAlternates ::
  "UserLocatorEntry \<Rightarrow> ElementWithLocators \<Rightarrow> AlternateLocator list"
where
  "elementAlternates userLocator element =
     pushExactMatch userLocator element (pushTextSimilar userLocator element [])"

subsection \<open>Example screens, locator files and sessions\<close>

text \<open>
  The entry of the specification's first scenario: an \<open>id\<close> locator that no longer
  resolves, for a field labelled \<open>Submit\<close>.
\<close>

definition missingBtnEntry :: UserLocatorEntry where
  "missingBtnEntry =
     \<lparr>pageName = ''Checkout'', pageElementName = ''submitButton'',
      LocatorStrategy = ''id'', Locators = ''com.app:id/missingBtn'',
      fieldName = ''Submit'', timestamp = ''2024-01-01'', remarks = [],
      AutoHeal = ''true''\<rparr>"

text \<open>An entry that resolves on the example screen.\<close>

definition submitBtnEntry :: UserLocatorEntry where
  "submitBtnEntry =
     \<lparr>pageName = ''Checkout'', pageElementName = ''submitButton'',
      LocatorStrategy = ''id'', Locators = ''com.app:id/submitBtn'',
      fieldName = ''Submit'', timestamp = ''2024-01-01'', remarks = [],
      AutoHeal = ''true''\<rparr>"

text \<open>An entry with a mistyped strategy name, whose selector is the button's \<open>id\<close>.\<close>

definition typoEntry :: UserLocatorEntry where
  "typoEntry =
     \<lparr>pageName = ''Checkout'', pageElementName = [],
      LocatorStrategy = ''resource-id'', Locators = ''com.app:id/submitBtn'',
      fieldName = [], timestamp = [], remarks = [], AutoHeal = ''true''\<rparr>"

definition submitButton :: ElementWithLocators where
  "submitButton =
     \<lparr>el_tagName = ''android.widget.Button'', el_text = ''Submit order'',
      el_contentDesc = [], el_resourceId = ''com.app:id/submitBtn'',
      el_locators =
        [(''id'', ''com.app:id/submitBtn''),
         (''xpath'', ''//android.widget.Button[@text=Submit order]'')]\<rparr>"

text \<open>A node whose visible text differs from its accessibility annotation.\<close>

definition cancelButton :: ElementWithLocators where
  "cancelButton =
     \<lparr>el_tagName = ''android.widget.Button'', el_text = ''Cancel'',
      el_contentDesc = ''Do not submit'', el_resourceId = ''com.app:id/cancelBtn'',
      el_locators =
        [(''id'', ''com.app:id/cancelBtn''),
         (''accessibility id'', ''Do not submit''),
         (''-android uiautomator'', ''new UiSelector().text(Cancel)''),
         (''xpath'', ''//android.widget.Button[@text=Cancel]'')]\<rparr>"

text \<open>Two labels mentioning \<open>submit\<close>, with three candidates each.\<close>

definition submitTitle :: ElementWithLocators where
  "submitTitle =
     \<lparr>el_tagName = ''android.widget.TextView'', el_text = ''Submit your order'',
      el_contentDesc = ''title'', el_resourceId = ''com.app:id/title'',
      el_locators =
        [(''id'', ''com.app:id/title''),
         (''accessibility id'', ''title''),
         (''xpath'', ''//android.widget.TextView[@text=Submit your order]'')]\<rparr>"

definition submitHint :: ElementWithLocators where
  "submitHint =
     \<lparr>el_tagName = ''android.widget.TextView'', el_text = [],
      el_contentDesc = ''Press SUBMIT to pay'', el_resourceId = ''com.app:id/hint'',
      el_locators =
        [(''id'', ''com.app:id/hint''),
         (''accessibility id'', ''Press SUBMIT to pay''),
         (''xpath'', ''//android.widget.TextView[@content-desc=Press SUBMIT to pay]'')]\<rparr>"

text \<open>
  An entry that tried the strategy \<open>name\<close> with the selector that is the
  \<open>accessibility id\<close> candidate of the cancel button.
\<close>

definition staleNameEntry :: UserLocatorEntry where
  "staleNameEntry =
     \<lparr>pageName = ''Checkout'', pageElementName = ''cancel'',
      LocatorStrategy = ''name'', Locators = ''Do not submit'',
      fieldName = ''Submit'', timestamp = [], remarks = [], AutoHeal = ''true''\<rparr>"

text \<open>A session on a screen where only the button's \<open>id\<close> resolves.\<close>

definition demoFindElement :: "string \<Rightarrow> string \<Rightarrow> jsError + unit" where
  "demoFindElement st sel =
     (if st = ''id'' \<and> sel = ''com.app:id/submitBtn'' then Inr ()
      else Inl (JsError ''NoSuchElementError'' ''An element could not be located''))"

definition demoDriver :: Session where
  "demoDriver =
     \<lparr>getPageSource = Inr ''<hierarchy/>'', automationName = Some ''UiAutomator2'',
      findElement = demoFindElement\<rparr>"

text \<open>
  A file system with a locator file of two entries, a file holding a single JSON
  object and a file that is not JSON.
\<close>

definition demoReadFileSync :: "string \<Rightarrow> jsError + string" where
  "demoReadFileSync p =
     (if p = ''/locators.json'' then Inr ''[entries]''
      else if p = ''/found.json'' then Inr ''[found]''
      else if p = ''/object.json'' then Inr ''{object}''
      else if p = ''/broken.json'' then Inr ''[''
      else Inl (JsError ''Error'' ''ENOENT''))"

definition demoParse :: "string \<Rightarrow> jsError + jsonValue" where
  "demoParse s =
     (if s = ''[entries]'' then Inr (JArray [submitBtnEntry, missingBtnEntry])
      else if s = ''[found]'' then Inr (JArray [submitBtnEntry])
      else if s = ''{object}'' then Inr JNotArray
      else Inl (JsError ''SyntaxError'' ''Unexpected end of JSON input''))"

definition demoExists :: "string \<Rightarrow> bool" where
  "demoExists p = (p \<in> set [''/locators.json'', ''/found.json'', ''/object.json'', ''/broken.json''])"

definition demoGenerate :: "string \<Rightarrow> bool \<Rightarrow> string \<Rightarrow> jsError + ElementWithLocators list" where
  "demoGenerate pageSource flag driverName = Inr [cancelButton, submitButton]"

definition demoEnv :: Env where
  "demoEnv =
     \<lparr>getDriver = Some demoDriver, path_resolve = id, existsSync = demoExists,
      readFileSync = demoReadFileSync, JSON_parse = demoParse,
      generateAllElementLocators = demoGenerate\<rparr>"

section \<open>Properties\<close>

subsection \<open>Strings\<close>

lemma startsWith_iff: "startsWith s t \<longleftrightarrow> (\<exists>post. s = t @ post)"
  by (induction s t rule: startsWith.induct) auto

lemma includes_js_iff: "includes_js s t \<longleftrightarrow> (\<exists>pre post. s = pre @ t @ post)"
proof (induction s)
  case Nil
  then show ?case by simp
next
  case (Cons a s)
  show ?case
  proof
    assume "includes_js (a # s) t"
    then consider "startsWith (a # s) t" | "includes_js s t" by auto
    then show "\<exists>pre post. a # s = pre @ t @ post"
    proof cases
      case 1
      then obtain post where "a # s = t @ post" by (auto simp: startsWith_iff)
      then have "a # s = [] @ t @ post" by simp
      then show ?thesis by blast
    next
      case 2
      then obtain pre post where "s = pre @ t @ post" using Cons.IH by blast
      then have "a # s = (a # pre) @ t @ post" by simp
      then show ?thesis by blast
    qed
  next
    assume "\<exists>pre post. a # s = pre @ t @ post"
    then obtain pre post where eq: "a # s = pre @ t @ post" by blast
    show "includes_js (a # s) t"
    proof (cases pre)
      case Nil
      with eq have "startsWith (a # s) t" by (auto simp: startsWith_iff)
      then show ?thesis by simp
    next
      case (Cons b pre')
      with eq have "s = pre' @ t @ post" by simp
      then have "includes_js s t" using Cons.IH by blast
      then show ?thesis by simp
    qed
  qed
qed

lemma includes_js_sublist: "includes_js s t \<longleftrightarrow> sublist t s"
  by (simp add: includes_js_iff sublist_def)

lemma targetText_firstNonEmpty:
  "targetText u = firstNonEmpty [fieldName u, remarks u, pageElementName u]"
  by (simp add: targetText_def jsOr_def)

lemma elementText_firstNonEmpty:
  "elementText e = firstNonEmpty [el_text e, el_contentDesc e, el_resourceId e]"
  by (simp add: elementText_def jsOr_def)

lemma textSimilar_spec:
  "textSimilar u e \<longleftrightarrow>
     targetText u \<noteq> [] \<and> containsIgnoringCase (elementText e) (targetText u)"
proof -
  have "elementText e \<noteq> []"
    if "targetText u \<noteq> []" and "sublist (toLowerCase (targetText u)) (toLowerCase (elementText e))"
  proof
    assume "elementText e = []"
    then have "toLowerCase (targetText u) = []" using that(2) by (simp add: toLowerCase_def)
    then show False using that(1) by (simp add: toLowerCase_def)
  qed
  then show ?thesis
    unfolding textSimilar_def containsIgnoringCase_def includes_js_sublist by blast
qed

subsection \<open>The loop of \<open>findAlternateLocators\<close>\<close>

lemma foldl_cond_append:
  "foldl (\<lambda>acc x. if P x then acc @ ys else acc) acc0 xs =
     acc0 @ concat (map (\<lambda>x. if P x then ys else []) xs)"
  by (induction xs arbitrary: acc0) auto

lemma pushExactMatch_append:
  "pushExactMatch u e alts = alts @ pushExactMatch u e []"
  unfolding pushExactMatch_def by (simp add: foldl_cond_append)

lemma pushTextSimilar_append:
  "pushTextSimilar u e alts = alts @ pushTextSimilar u e []"
  unfolding pushTextSimilar_def by simp

lemma elementAlternates_parts:
  "elementAlternates u e = pushTextSimilar u e [] @ pushExactMatch u e []"
  unfolding elementAlternates_def
  using pushExactMatch_append [of u e "pushTextSimilar u e []"] by simp

lemma loop_body_append:
  "pushExactMatch u e (pushTextSimilar u e acc) = acc @ elementAlternates u e"
  using pushExactMatch_append [of u e "pushTextSimilar u e acc"]
    pushTextSimilar_append [of u e acc] by (simp add: elementAlternates_parts)

lemma foldl_loop_concat:
  "foldl (\<lambda>alternates element.
            pushExactMatch u element (pushTextSimilar u element alternates)) acc es
     = acc @ concat (map (elementAlternates u) es)"
  by (induction es arbitrary: acc) (simp_all add: loop_body_append)

lemma collectAlternates_concat:
  "collectAlternates u es = concat (map (elementAlternates u) es)"
  unfolding collectAlternates_def by (simp add: foldl_loop_concat)

lemma set_concat_cond:
  "set (concat (map (\<lambda>x. if P x then ys else []) xs)) =
     (if \<exists>x \<in> set xs. P x then set ys else {})"
  by (induction xs) auto

lemma pushExactMatch_set:
  "set (pushExactMatch u e []) =
     (if exactSelectorReuse u e
      then alternateOf e ` {p \<in> set (el_locators e). fst p \<noteq> LocatorStrategy u}
      else {})"
proof -
  let ?ys = "map (alternateOf e)
               (filter (\<lambda>(st, sel). st \<noteq> LocatorStrategy u) (el_locators e))"
  have "pushExactMatch u e [] =
      concat (map (\<lambda>sel0. if sel0 = Locators u then ?ys else []) (map snd (el_locators e)))"
    unfolding pushExactMatch_def by (simp add: foldl_cond_append)
  then have "set (pushExactMatch u e []) =
      (if \<exists>sel0 \<in> set (map snd (el_locators e)). sel0 = Locators u then set ?ys else {})"
    by (simp only: set_concat_cond)
  moreover have "set ?ys = alternateOf e ` {p \<in> set (el_locators e). fst p \<noteq> LocatorStrategy u}"
    by (auto simp: case_prod_beta)
  moreover have "(\<exists>sel0 \<in> set (map snd (el_locators e)). sel0 = Locators u)
      \<longleftrightarrow> exactSelectorReuse u e"
    by (auto simp: exactSelectorReuse_def)
  ultimately show ?thesis by simp
qed

lemma pushExactMatch_strategy:
  "a \<in> set (pushExactMatch u e []) \<Longrightarrow> strategy a \<noteq> LocatorStrategy u"
  by (auto simp: pushExactMatch_set alternateOf_def split: if_splits)

lemma elementAlternates_in_collect:
  "e \<in> set es \<Longrightarrow> set (elementAlternates u e) \<subseteq> set (collectAlternates u es)"
  by (auto simp: collectAlternates_concat)

lemma pairOf_alternateOf: "pairOf (alternateOf e p) = p"
  by (simp add: pairOf_def alternateOf_def)

subsection \<open>Deduplication\<close>

lemma findIndex_nonneg_iff: "0 \<le> findIndex P xs \<longleftrightarrow> (\<exists>x \<in> set xs. P x)"
  by (induction xs) (auto simp: Let_def)

lemma findIndex_append_hit:
  "P x \<Longrightarrow> (findIndex P (pre @ x # xs) = int (length pre)) \<longleftrightarrow> (\<forall>y \<in> set pre. \<not> P y)"
proof (induction pre)
  case Nil
  then show ?case by simp
next
  case (Cons p pre)
  have nn: "0 \<le> findIndex P (pre @ x # xs)"
    using Cons.prems by (auto simp: findIndex_nonneg_iff)
  show ?case
  proof (cases "P p")
    case True
    then show ?thesis by simp
  next
    case False
    then show ?thesis using Cons nn by (auto simp: Let_def)
  qed
qed

lemma keepFirstSeen_cong_set:
  "set seen = set seen' \<Longrightarrow> keepFirstSeen seen xs = keepFirstSeen seen' xs"
proof (induction xs arbitrary: seen seen')
  case Nil
  then show ?case by simp
next
  case (Cons x xs)
  have "keepFirstSeen ((strategy x, selector x) # seen) xs
          = keepFirstSeen ((strategy x, selector x) # seen') xs"
    by (rule Cons.IH) (simp add: Cons.prems)
  moreover have "keepFirstSeen seen xs = keepFirstSeen seen' xs"
    by (rule Cons.IH) (rule Cons.prems)
  ultimately show ?case using Cons.prems by simp
qed

lemma filter_enumerate_keepFirstSeen:
  "map snd (filter (\<lambda>(index, item).
        int index = findIndex (\<lambda>t. strategy t = strategy item \<and> selector t = selector item) (pre @ xs))
      (enumerate (length pre) xs))
   = keepFirstSeen (map (\<lambda>a. (strategy a, selector a)) pre) xs"
proof (induction xs arbitrary: pre)
  case Nil
  then show ?case by simp
next
  case (Cons x xs)
  let ?P = "\<lambda>t. strategy t = strategy x \<and> selector t = selector x"
  let ?keys = "map (\<lambda>a. (strategy a, selector a))"
  let ?rest = "map snd (filter (\<lambda>(index, item).
        int index = findIndex (\<lambda>t. strategy t = strategy item \<and> selector t = selector item) (pre @ x # xs))
      (enumerate (Suc (length pre)) xs))"
  have hit: "(int (length pre) = findIndex ?P (pre @ x # xs)) \<longleftrightarrow> (\<forall>y \<in> set pre. \<not> ?P y)"
    using findIndex_append_hit [of ?P x pre xs] by auto
  have seen: "((strategy x, selector x) \<in> set (?keys pre)) \<longleftrightarrow> (\<exists>y \<in> set pre. ?P y)"
    by (auto simp: image_iff) metis
  have IH: "?rest = keepFirstSeen (?keys (pre @ [x])) xs"
    using Cons.IH [of "pre @ [x]"] by simp
  show ?case
  proof (cases "\<exists>y \<in> set pre. ?P y")
    case True
    then have "\<not> (int (length pre) = findIndex ?P (pre @ x # xs))" using hit by blast
    then have lhs: "map snd (filter (\<lambda>(index, item).
        int index = findIndex (\<lambda>t. strategy t = strategy item \<and> selector t = selector item) (pre @ x # xs))
      (enumerate (length pre) (x # xs))) = ?rest" by simp
    have "set (?keys (pre @ [x])) = set (?keys pre)" using True seen by auto
    then have "keepFirstSeen (?keys (pre @ [x])) xs = keepFirstSeen (?keys pre) xs"
      by (rule keepFirstSeen_cong_set)
    moreover have "(strategy x, selector x) \<in> set (?keys pre)"
      using True seen by blast
    then have "keepFirstSeen (?keys pre) (x # xs) = keepFirstSeen (?keys pre) xs"
      by simp
    ultimately show ?thesis using lhs IH by simp
  next
    case False
    then have "int (length pre) = findIndex ?P (pre @ x # xs)" using hit by blast
    then have lhs: "map snd (filter (\<lambda>(index, item).
        int index = findIndex (\<lambda>t. strategy t = strategy item \<and> selector t = selector item) (pre @ x # xs))
      (enumerate (length pre) (x # xs))) = x # ?rest" by simp
    have "set (?keys (pre @ [x])) = set ((strategy x, selector x) # ?keys pre)" by auto
    then have "keepFirstSeen (?keys (pre @ [x])) xs
        = keepFirstSeen ((strategy x, selector x) # ?keys pre) xs"
      by (rule keepFirstSeen_cong_set)
    moreover have "(strategy x, selector x) \<notin> set (?keys pre)"
      using False seen by blast
    then have "keepFirstSeen (?keys pre) (x # xs)
        = x # keepFirstSeen ((strategy x, selector x) # ?keys pre) xs"
      by simp
    ultimately show ?thesis using lhs IH by simp
  qed
qed

lemma uniqueAlternates_keepFirstSeen: "uniqueAlternates xs = keepFirstSeen [] xs"
  unfolding uniqueAlternates_def using filter_enumerate_keepFirstSeen [of "[]" xs] by simp

lemma keepFirstSeen_pairs:
  "distinct (map pairOf (keepFirstSeen seen xs)) \<and>
   set (map pairOf (keepFirstSeen seen xs)) = set (map pairOf xs) - set seen"
  by (induction seen xs rule: keepFirstSeen.induct) (auto simp: pairOf_def)

lemma keepFirstSeen_subseq: "subseq (keepFirstSeen seen xs) xs"
  by (induction seen xs rule: keepFirstSeen.induct) auto

lemma uniqueAlternates_distinct: "distinct (map pairOf (uniqueAlternates xs))"
  using keepFirstSeen_pairs [of "[]" xs] by (simp add: uniqueAlternates_keepFirstSeen)

lemma uniqueAlternates_pairs: "set (map pairOf (uniqueAlternates xs)) = set (map pairOf xs)"
  using keepFirstSeen_pairs [of "[]" xs] by (simp add: uniqueAlternates_keepFirstSeen)

lemma keepFirstSeen_subset: "set (keepFirstSeen seen xs) \<subseteq> set xs"
  by (induction seen xs rule: keepFirstSeen.induct) auto

lemma uniqueAlternates_subset: "set (uniqueAlternates xs) \<subseteq> set xs"
  by (simp add: uniqueAlternates_keepFirstSeen keepFirstSeen_subset)

subsection \<open>The validation loop and \<open>execute\<close>\<close>

lemma foldl_validateEntry:
  "foldl (validateEntry driver elems) (results, trace) us =
     (results @ map (entryResult driver elems) us,
      trace @ map (\<lambda>u. FindElement (LocatorStrategy u) (Locators u)) us)"
  by (induction us arbitrary: results trace) (simp_all add: validateEntry_def)

lemma validateAll_eq:
  "validateAll driver elems trace us =
     (map (entryResult driver elems) us,
      trace @ map (\<lambda>u. FindElement (LocatorStrategy u) (Locators u)) us)"
  unfolding validateAll_def by (simp add: foldl_validateEntry)

lemma buildReport_counts:
  "totalChecked (buildReport results) = length results \<and>
   foundCount (buildReport results) + missingCount (buildReport results) = length results \<and>
   length (foundLocators (buildReport results)) = foundCount (buildReport results) \<and>
   length (missingLocators (buildReport results)) = missingCount (buildReport results)"
  by (simp add: buildReport_def Let_def sum_length_filter_compl)

lemma errToString_message: "sublist (errMessage err) (errToString err)"
proof -
  have "sublist (errMessage err) (errName err @ '': '' @ errMessage err)"
    by (metis append.assoc sublist_appendI append_Nil2)
  then show ?thesis by (simp add: errToString_def)
qed

lemma captureSnapshot_trace:
  "(fst (captureSnapshot env driver) = Inr elems \<longrightarrow>
      snd (captureSnapshot env driver) = [GetPageSource, ReadAutomationName, GenerateLocators]) \<and>
   snd (captureSnapshot env driver) \<in>
     set [[GetPageSource], [GetPageSource, ReadAutomationName],
          [GetPageSource, ReadAutomationName, GenerateLocators]]"
  by (simp add: captureSnapshot_def Let_def split: sum.splits option.splits)

lemma tryBlock_file_error:
  "readLocatorFile env args = Inl err \<Longrightarrow> tryBlock env driver args = (Inl err, [])"
  by (simp add: tryBlock_def)

lemma tryBlock_snapshot_error:
  "readLocatorFile env args = Inr us \<Longrightarrow> fst (captureSnapshot env driver) = Inl err \<Longrightarrow>
   tryBlock env driver args = (Inl err, snd (captureSnapshot env driver))"
  by (cases "captureSnapshot env driver") (simp add: tryBlock_def)

lemma tryBlock_report:
  "readLocatorFile env args = Inr us \<Longrightarrow> fst (captureSnapshot env driver) = Inr elems \<Longrightarrow>
   tryBlock env driver args =
     (Inr (buildReport (map (entryResult driver elems) us)),
      snd (captureSnapshot env driver) @
        map (\<lambda>u. FindElement (LocatorStrategy u) (Locators u)) us)"
  by (cases "captureSnapshot env driver") (simp add: tryBlock_def validateAll_eq Let_def)

lemma execute_no_driver:
  "getDriver env = None \<Longrightarrow> isl (fst (execute env args)) \<and> snd (execute env args) = []"
  by (simp add: execute_def)

lemma execute_driver:
  "getDriver env = Some driver \<Longrightarrow>
   execute env args =
     (case tryBlock env driver args of
        (Inl err, trace) \<Rightarrow>
          (Inl (newError (''Failed to check locators: '' @ errMessage err)), trace)
      | (Inr report, trace) \<Rightarrow> (Inr report, trace))"
  by (simp add: execute_def)

lemma readLocatorFile_fails:
  assumes "\<not> existsSync env (path_resolve env (locatorFilePath args)) \<or>
     (\<exists>content. readFileSync env (path_resolve env (locatorFilePath args)) = Inr content \<and>
        (isl (JSON_parse env content) \<or> JSON_parse env content = Inr JNotArray))"
  shows "isl (readLocatorFile env args)"
  using assms by (auto simp: readLocatorFile_def Let_def split: sum.splits jsonValue.splits)

section \<open>The claims\<close>

subsection \<open>C1: the text-similarity heuristic\<close>

text \<open>
  The code compares the target label with one label of the node only: its \<open>text\<close>,
  falling back to \<open>contentDesc\<close>, falling back to \<open>resourceId\<close>. On the example
  screen the cancel button's \<open>contentDesc\<close> contains \<open>submit\<close>, yet the button does
  not match the entry labelled \<open>Submit\<close>, because its \<open>text\<close> is \<open>Cancel\<close>.
\<close>

theorem text_similarity_any_field_counterexample:
  "containsIgnoringCase (el_contentDesc cancelButton) (fieldName missingBtnEntry) \<and>
   fieldName missingBtnEntry = ''Submit'' \<and>
   \<not> textSimilar missingBtnEntry cancelButton \<and>
   findAlternateLocators missingBtnEntry [cancelButton] = []"
  by code_simp

text \<open>
  C1, as amended: an Element Node matches by text similarity if and only if the target
  label is not empty and the node's label case-insensitively contains it, where the
  target label is \<open>fieldName\<close>, falling back to \<open>remarks\<close>, falling back to
  \<open>pageElementName\<close>, and the node's label is \<open>text\<close>, falling back to
  \<open>contentDesc\<close>, falling back to \<open>resourceId\<close>, first non-empty wins in both.
\<close>

theorem text_similarity_first_label_only:
  "textSimilar userLocator element \<longleftrightarrow>
     firstNonEmpty [fieldName userLocator, remarks userLocator, pageElementName userLocator] \<noteq> [] \<and>
     containsIgnoringCase
       (firstNonEmpty [el_text element, el_contentDesc element, el_resourceId element])
       (firstNonEmpty [fieldName userLocator, remarks userLocator, pageElementName userLocator])"
  using textSimilar_spec [of userLocator element]
  by (simp only: targetText_firstNonEmpty elementText_firstNonEmpty)

theorem text_similarity_first_label_only_witness:
  "textSimilar missingBtnEntry submitButton \<and>
   containsIgnoringCase
     (firstNonEmpty [el_text submitButton, el_contentDesc submitButton, el_resourceId submitButton])
     (firstNonEmpty [fieldName missingBtnEntry, remarks missingBtnEntry,
        pageElementName missingBtnEntry])"
proof -
  have "textSimilar missingBtnEntry submitButton" by code_simp
  then show ?thesis
    using text_similarity_first_label_only [of missingBtnEntry submitButton] by simp
qed

subsection \<open>C2: the alternates of one matching node\<close>

text \<open>
  For a node that matches by text similarity the code pushes all of the node's
  candidates (``add all available locators for this matching element''), the strategy
  the user tried among them: the entry of the first scenario tried \<open>id\<close>, and the
  \<open>id\<close> candidate of the submit button is its first alternate.
\<close>

theorem tried_strategy_emitted_counterexample:
  "textSimilar missingBtnEntry submitButton \<and>
   LocatorStrategy missingBtnEntry = ''id'' \<and>
   map strategy (elementAlternates missingBtnEntry submitButton) = [''id'', ''xpath''] \<and>
   map strategy (findAlternateLocators missingBtnEntry [submitButton]) = [''id'', ''xpath'']"
  by code_simp

text \<open>
  C2, as amended: for a node that matches by text similarity, the alternates emitted
  for it are all of its candidates, the tried strategy included when the node has it;
  for a node that matches by exact selector reuse only, they are exactly its
  candidates except those of the strategy the user tried, so the tried strategy is not
  among them; for a node that matches by neither, nothing is emitted.
\<close>

theorem alternates_of_matching_node:
  "(textSimilar userLocator element \<longrightarrow>
      set (elementAlternates userLocator element) =
        alternateOf element ` set (el_locators element)) \<and>
   (\<not> textSimilar userLocator element \<and> exactSelectorReuse userLocator element \<longrightarrow>
      set (elementAlternates userLocator element) =
        alternateOf element `
          {p \<in> set (el_locators element). fst p \<noteq> LocatorStrategy userLocator} \<and>
      LocatorStrategy userLocator \<notin> strategy ` set (elementAlternates userLocator element)) \<and>
   (\<not> textSimilar userLocator element \<and> \<not> exactSelectorReuse userLocator element \<longrightarrow>
      elementAlternates userLocator element = [])"
proof -
  have tsim: "set (pushTextSimilar userLocator element []) =
      (if textSimilar userLocator element then alternateOf element ` set (el_locators element)
       else {})"
    by (simp add: pushTextSimilar_def)
  have parts: "set (elementAlternates userLocator element) =
      set (pushTextSimilar userLocator element []) \<union> set (pushExactMatch userLocator element [])"
    by (simp add: elementAlternates_parts)
  have sub: "set (pushExactMatch userLocator element []) \<subseteq>
      alternateOf element ` set (el_locators element)"
    by (auto simp: pushExactMatch_set)
  have one: "textSimilar userLocator element \<longrightarrow>
      set (elementAlternates userLocator element) =
        alternateOf element ` set (el_locators element)"
    using tsim parts sub by auto
  have two: "\<not> textSimilar userLocator element \<and> exactSelectorReuse userLocator element \<longrightarrow>
      set (elementAlternates userLocator element) =
        alternateOf element `
          {p \<in> set (el_locators element). fst p \<noteq> LocatorStrategy userLocator} \<and>
      LocatorStrategy userLocator \<notin> strategy ` set (elementAlternates userLocator element)"
  proof
    assume h: "\<not> textSimilar userLocator element \<and> exactSelectorReuse userLocator element"
    have eq: "set (elementAlternates userLocator element) =
        set (pushExactMatch userLocator element [])"
      using h tsim parts by simp
    have "LocatorStrategy userLocator \<notin> strategy ` set (elementAlternates userLocator element)"
    proof
      assume "LocatorStrategy userLocator \<in> strategy ` set (elementAlternates userLocator element)"
      then obtain x where "x \<in> set (elementAlternates userLocator element)"
        and "LocatorStrategy userLocator = strategy x"
        by (rule imageE)
      then show False using eq pushExactMatch_strategy [of x userLocator element] by simp
    qed
    then show "set (elementAlternates userLocator element) =
        alternateOf element `
          {p \<in> set (el_locators element). fst p \<noteq> LocatorStrategy userLocator} \<and>
      LocatorStrategy userLocator \<notin> strategy ` set (elementAlternates userLocator element)"
      using eq h by (simp add: pushExactMatch_set)
  qed
  have three: "\<not> textSimilar userLocator element \<and> \<not> exactSelectorReuse userLocator element \<longrightarrow>
      elementAlternates userLocator element = []"
  proof
    assume h: "\<not> textSimilar userLocator element \<and> \<not> exactSelectorReuse userLocator element"
    have "set (elementAlternates userLocator element) = {}"
      using h tsim parts by (simp add: pushExactMatch_set)
    then show "elementAlternates userLocator element = []" by simp
  qed
  show ?thesis using one two three by blast
qed

theorem alternates_of_matching_node_witness:
  "textSimilar missingBtnEntry submitButton \<and>
   set (elementAlternates missingBtnEntry submitButton) =
     alternateOf submitButton ` set (el_locators submitButton) \<and>
   \<not> textSimilar typoEntry submitButton \<and> exactSelectorReuse typoEntry submitButton \<and>
   set (elementAlternates typoEntry submitButton) =
     alternateOf submitButton `
       {p \<in> set (el_locators submitButton). fst p \<noteq> LocatorStrategy typoEntry} \<and>
   LocatorStrategy typoEntry \<notin> strategy ` set (elementAlternates typoEntry submitButton) \<and>
   \<not> textSimilar typoEntry cancelButton \<and> \<not> exactSelectorReuse typoEntry cancelButton \<and>
   elementAlternates typoEntry cancelButton = []"
proof -
  have h1: "textSimilar missingBtnEntry submitButton" by code_simp
  have h2: "\<not> textSimilar typoEntry submitButton \<and> exactSelectorReuse typoEntry submitButton"
    by code_simp
  have h3: "\<not> textSimilar typoEntry cancelButton \<and> \<not> exactSelectorReuse typoEntry cancelButton"
    by code_simp
  have c1: "set (elementAlternates missingBtnEntry submitButton) =
     alternateOf submitButton ` set (el_locators submitButton)"
    using alternates_of_matching_node [of missingBtnEntry submitButton] h1 by blast
  have c2: "set (elementAlternates typoEntry submitButton) =
     alternateOf submitButton `
       {p \<in> set (el_locators submitButton). fst p \<noteq> LocatorStrategy typoEntry} \<and>
   LocatorStrategy typoEntry \<notin> strategy ` set (elementAlternates typoEntry submitButton)"
    using alternates_of_matching_node [of typoEntry submitButton] h2 by blast
  have c3: "elementAlternates typoEntry cancelButton = []"
    using alternates_of_matching_node [of typoEntry cancelButton] h3 by blast
  show ?thesis using h1 h2 h3 c1 c2 c3 by blast
qed

subsection \<open>C3: exact selector reuse\<close>

text \<open>
  The cap cuts the alternates of a node met late: on a screen where two labels
  mentioning \<open>submit\<close> come first, with three candidates each, the entry whose failed
  selector is a candidate of the cancel button gets five alternates, none of them the
  button's \<open>-android uiautomator\<close> candidate.
\<close>

theorem exact_reuse_cut_by_cap_counterexample:
  "cancelButton \<in> set [submitTitle, submitHint, cancelButton] \<and>
   Locators staleNameEntry \<in> set (map snd (el_locators cancelButton)) \<and>
   (''-android uiautomator'', ''new UiSelector().text(Cancel)'') \<in> set (el_locators cancelButton) \<and>
   LocatorStrategy staleNameEntry = ''name'' \<and>
   ''-android uiautomator'' \<notin>
     set (map strategy
       (findAlternateLocators staleNameEntry [submitTitle, submitHint, cancelButton])) \<and>
   length (findAlternateLocators staleNameEntry [submitTitle, submitHint, cancelButton]) = 5"
  by code_simp

text \<open>
  C3, as amended: for an entry whose \<open>Locators\<close> string is identical to some candidate
  selector of a node of the snapshot, every candidate of that node whose strategy is not
  the tried one is, with its selector, among the deduplicated alternates; it is among
  the alternates returned whenever deduplication leaves at most 5 of them (the returned
  list being the first 5).
\<close>

theorem exact_reuse_alternates_before_cap:
  assumes "element \<in> set allCurrentPageElements"
    and "exactSelectorReuse userLocator element"
    and "(st, sel) \<in> set (el_locators element)"
    and "st \<noteq> LocatorStrategy userLocator"
  shows "(st, sel) \<in> set (map pairOf
            (uniqueAlternates (collectAlternates userLocator allCurrentPageElements))) \<and>
         (length (uniqueAlternates (collectAlternates userLocator allCurrentPageElements)) \<le> 5 \<longrightarrow>
          (st, sel) \<in> set (map pairOf
            (findAlternateLocators userLocator allCurrentPageElements)))"
proof -
  let ?raw = "collectAlternates userLocator allCurrentPageElements"
  have "alternateOf element (st, sel) \<in> set (pushExactMatch userLocator element [])"
    using assms(2,3,4) by (auto simp: pushExactMatch_set)
  then have "alternateOf element (st, sel) \<in> set (elementAlternates userLocator element)"
    by (simp add: elementAlternates_parts)
  then have "alternateOf element (st, sel) \<in> set ?raw"
    using elementAlternates_in_collect [OF assms(1), of userLocator] by blast
  then have "pairOf (alternateOf element (st, sel)) \<in> set (map pairOf ?raw)"
    by simp
  then have "(st, sel) \<in> set (map pairOf ?raw)"
    by (simp only: pairOf_alternateOf)
  then have inu: "(st, sel) \<in> set (map pairOf (uniqueAlternates ?raw))"
    by (simp only: uniqueAlternates_pairs)
  have "findAlternateLocators userLocator allCurrentPageElements = uniqueAlternates ?raw"
    if "length (uniqueAlternates ?raw) \<le> 5"
    using that by (simp add: findAlternateLocators_def)
  then show ?thesis using inu by simp
qed

theorem exact_reuse_alternates_before_cap_witness:
  "submitButton \<in> set [cancelButton, submitButton] \<and>
   exactSelectorReuse typoEntry submitButton \<and>
   (''id'', ''com.app:id/submitBtn'') \<in> set (el_locators submitButton) \<and>
   ''id'' \<noteq> LocatorStrategy typoEntry \<and>
   length (uniqueAlternates (collectAlternates typoEntry [cancelButton, submitButton])) \<le> 5 \<and>
   (''id'', ''com.app:id/submitBtn'') \<in>
     set (map pairOf (findAlternateLocators typoEntry [cancelButton, submitButton]))"
proof -
  have h1: "submitButton \<in> set [cancelButton, submitButton]" by simp
  have h2: "exactSelectorReuse typoEntry submitButton" by code_simp
  have h3: "(''id'', ''com.app:id/submitBtn'') \<in> set (el_locators submitButton)" by code_simp
  have h4: "''id'' \<noteq> LocatorStrategy typoEntry" by code_simp
  have h5: "length (uniqueAlternates (collectAlternates typoEntry [cancelButton, submitButton])) \<le> 5"
    by code_simp
  show ?thesis
    using exact_reuse_alternates_before_cap [OF h1 h2 h3 h4] h1 h2 h3 h4 h5 by blast
qed

subsection \<open>C4: the cap and the absence of duplicates\<close>

text \<open>
  C4: for every User Locator Entry and every snapshot, the alternates returned have
  length at most 5 and no two of them have the same \<open>(strategy, selector)\<close> pair.
\<close>

theorem alternates_capped_and_distinct:
  "length (findAlternateLocators userLocator allCurrentPageElements) \<le> 5 \<and>
   distinct (map pairOf (findAlternateLocators userLocator allCurrentPageElements))"
proof -
  let ?xs = "uniqueAlternates (collectAlternates userLocator allCurrentPageElements)"
  have "distinct (take 5 (map pairOf ?xs))"
    using uniqueAlternates_distinct by (rule distinct_take)
  then show ?thesis by (simp add: findAlternateLocators_def take_map)
qed

theorem alternates_capped_and_distinct_witness:
  "length (findAlternateLocators staleNameEntry [submitTitle, submitHint, cancelButton]) = 5 \<and>
   distinct (map pairOf
     (findAlternateLocators staleNameEntry [submitTitle, submitHint, cancelButton]))"
proof -
  have "length (findAlternateLocators staleNameEntry [submitTitle, submitHint, cancelButton]) = 5"
    by code_simp
  then show ?thesis
    using alternates_capped_and_distinct [of staleNameEntry "[submitTitle, submitHint, cancelButton]"]
    by simp
qed

subsection \<open>C5: first-seen order\<close>

text \<open>
  C5: the alternates returned are the first five of the first-seen occurrences of each
  \<open>(strategy, selector)\<close> pair in the sequence that lists, node after node in snapshot
  order, the node's text-similarity alternates followed by its exact-reuse alternates;
  in particular they occur in that sequence in the order in which they are returned.
\<close>

theorem dedup_keeps_first_seen_order:
  "findAlternateLocators userLocator allCurrentPageElements =
     take 5 (keepFirstSeen []
       (concat (map (\<lambda>element. pushTextSimilar userLocator element [] @
                               pushExactMatch userLocator element [])
                  allCurrentPageElements))) \<and>
   subseq (findAlternateLocators userLocator allCurrentPageElements)
     (concat (map (\<lambda>element. pushTextSimilar userLocator element [] @
                             pushExactMatch userLocator element [])
                allCurrentPageElements))"
proof -
  let ?raw = "concat (map (\<lambda>element. pushTextSimilar userLocator element [] @
                             pushExactMatch userLocator element []) allCurrentPageElements)"
  have "elementAlternates userLocator =
      (\<lambda>element. pushTextSimilar userLocator element [] @ pushExactMatch userLocator element [])"
    by (rule ext) (rule elementAlternates_parts)
  then have raw: "collectAlternates userLocator allCurrentPageElements = ?raw"
    by (simp add: collectAlternates_concat)
  have eq: "findAlternateLocators userLocator allCurrentPageElements
      = take 5 (keepFirstSeen [] ?raw)"
    by (simp add: findAlternateLocators_def raw uniqueAlternates_keepFirstSeen)
  have "subseq (take 5 (keepFirstSeen [] ?raw)) (keepFirstSeen [] ?raw)"
    by (rule prefix_imp_subseq) (rule take_is_prefix)
  then have "subseq (take 5 (keepFirstSeen [] ?raw)) ?raw"
    using keepFirstSeen_subseq [of "[]" ?raw] by (rule subseq_order.order_trans)
  then show ?thesis using eq by simp
qed

theorem dedup_keeps_first_seen_order_witness:
  "findAlternateLocators missingBtnEntry [submitButton, submitButton] =
     take 5 (keepFirstSeen []
       (concat (map (\<lambda>element. pushTextSimilar missingBtnEntry element [] @
                               pushExactMatch missingBtnEntry element [])
                  [submitButton, submitButton]))) \<and>
   map strategy (findAlternateLocators missingBtnEntry [submitButton, submitButton]) =
     [''id'', ''xpath'']"
proof -
  have "map strategy (findAlternateLocators missingBtnEntry [submitButton, submitButton]) =
     [''id'', ''xpath'']"
    by code_simp
  then show ?thesis
    using dedup_keeps_first_seen_order [of missingBtnEntry "[submitButton, submitButton]"]
    by simp
qed

subsection \<open>C6: the result of one entry\<close>

text \<open>
  C6: the validation loop yields one result per entry; for an entry whose primary
  \<open>(LocatorStrategy, Locators)\<close> pair resolves, the result has \<open>found = true\<close> and
  neither alternates nor error; for an entry whose resolution fails with an error, the
  result has \<open>found = false\<close>, the alternates computed for the entry and the string of
  that error, which contains the error's message.
\<close>

theorem validation_result_per_entry:
  assumes "i < length userLocators"
  shows "length (fst (validateAll driver elems trace userLocators)) = length userLocators \<and>
    (findElement driver (LocatorStrategy (userLocators ! i)) (Locators (userLocators ! i)) = Inr () \<longrightarrow>
       found (fst (validateAll driver elems trace userLocators) ! i) \<and>
       alternateLocators (fst (validateAll driver elems trace userLocators) ! i) = None \<and>
       error (fst (validateAll driver elems trace userLocators) ! i) = None) \<and>
    (findElement driver (LocatorStrategy (userLocators ! i)) (Locators (userLocators ! i)) = Inl err \<longrightarrow>
       \<not> found (fst (validateAll driver elems trace userLocators) ! i) \<and>
       alternateLocators (fst (validateAll driver elems trace userLocators) ! i) =
         Some (findAlternateLocators (userLocators ! i) elems) \<and>
       error (fst (validateAll driver elems trace userLocators) ! i) = Some (errToString err) \<and>
       sublist (errMessage err) (errToString err))"
proof -
  have r: "fst (validateAll driver elems trace userLocators) ! i =
      entryResult driver elems (userLocators ! i)"
    using assms by (simp add: validateAll_eq)
  have len: "length (fst (validateAll driver elems trace userLocators)) = length userLocators"
    by (simp add: validateAll_eq)
  show ?thesis
    unfolding r using len by (simp add: entryResult_def errToString_message)
qed

theorem validation_result_per_entry_witness:
  "(1::nat) < length [submitBtnEntry, missingBtnEntry] \<and>
   findElement demoDriver (LocatorStrategy submitBtnEntry) (Locators submitBtnEntry) = Inr () \<and>
   found (fst (validateAll demoDriver [cancelButton, submitButton] []
             [submitBtnEntry, missingBtnEntry]) ! 0) \<and>
   findElement demoDriver (LocatorStrategy missingBtnEntry) (Locators missingBtnEntry) =
     Inl (JsError ''NoSuchElementError'' ''An element could not be located'') \<and>
   \<not> found (fst (validateAll demoDriver [cancelButton, submitButton] []
               [submitBtnEntry, missingBtnEntry]) ! 1) \<and>
   error (fst (validateAll demoDriver [cancelButton, submitButton] []
             [submitBtnEntry, missingBtnEntry]) ! 1) =
     Some ''NoSuchElementError: An element could not be located''"
proof -
  have h0: "(0::nat) < length [submitBtnEntry, missingBtnEntry]" by simp
  have h1: "(1::nat) < length [submitBtnEntry, missingBtnEntry]" by simp
  have f0: "findElement demoDriver (LocatorStrategy submitBtnEntry) (Locators submitBtnEntry) = Inr ()"
    by code_simp
  have f1: "findElement demoDriver (LocatorStrategy missingBtnEntry) (Locators missingBtnEntry) =
     Inl (JsError ''NoSuchElementError'' ''An element could not be located'')"
    by code_simp
  have s: "errToString (JsError ''NoSuchElementError'' ''An element could not be located'') =
     ''NoSuchElementError: An element could not be located''"
    by code_simp
  show ?thesis
    using validation_result_per_entry [OF h0, of demoDriver "[cancelButton, submitButton]" "[]"]
      validation_result_per_entry [OF h1, of demoDriver "[cancelButton, submitButton]" "[]"
        "JsError ''NoSuchElementError'' ''An element could not be located''"]
      f0 f1 s
    by simp
qed

subsection \<open>C7: one result per entry\<close>

text \<open>
  C7: when the locator file yields an array of entries, a call with a driver and a
  snapshot returns the report built from one result per entry, whatever the element
  resolutions answer; and every report returned has \<open>totalChecked\<close> equal to the number
  of entries, \<open>foundCount + missingCount = totalChecked\<close>, and as many found and missing
  items together as there are entries.
\<close>

theorem batch_never_aborted:
  assumes "readLocatorFile env args = Inr userLocators"
  shows "(getDriver env = Some driver \<and> fst (captureSnapshot env driver) = Inr elems \<longrightarrow>
            fst (execute env args) =
              Inr (buildReport (map (entryResult driver elems) userLocators))) \<and>
         (fst (execute env args) = Inr report \<longrightarrow>
            totalChecked report = length userLocators \<and>
            foundCount report + missingCount report = totalChecked report \<and>
            length (foundLocators report) + length (missingLocators report) =
              length userLocators)"
proof -
  have ok: "fst (execute env args) = Inr (buildReport (map (entryResult driver elems) userLocators))"
    if "getDriver env = Some driver" and "fst (captureSnapshot env driver) = Inr elems"
    for driver elems
    using that tryBlock_report [OF assms that(2)] by (simp add: execute_driver)
  have counts: "totalChecked report = length userLocators \<and>
            foundCount report + missingCount report = totalChecked report \<and>
            length (foundLocators report) + length (missingLocators report) =
              length userLocators"
    if rep: "fst (execute env args) = Inr report"
  proof (cases "getDriver env")
    case None
    then show ?thesis using rep execute_no_driver [of env args] by simp
  next
    case (Some d)
    show ?thesis
    proof (cases "fst (captureSnapshot env d)")
      case (Inl e)
      then have "isl (fst (execute env args))"
        using tryBlock_snapshot_error [OF assms Inl] Some by (simp add: execute_driver)
      then show ?thesis using rep by simp
    next
      case (Inr es)
      then have "report = buildReport (map (entryResult d es) userLocators)"
        using ok [OF Some Inr] rep by simp
      then show ?thesis
        using buildReport_counts [of "map (entryResult d es) userLocators"] by simp
    qed
  qed
  show ?thesis using ok counts by blast
qed

theorem batch_never_aborted_witness:
  "readLocatorFile demoEnv \<lparr>locatorFilePath = ''/locators.json''\<rparr> =
     Inr [submitBtnEntry, missingBtnEntry] \<and>
   getDriver demoEnv = Some demoDriver \<and>
   fst (captureSnapshot demoEnv demoDriver) = Inr [cancelButton, submitButton] \<and>
   fst (execute demoEnv \<lparr>locatorFilePath = ''/locators.json''\<rparr>) =
     Inr (buildReport (map (entryResult demoDriver [cancelButton, submitButton])
            [submitBtnEntry, missingBtnEntry])) \<and>
   totalChecked (buildReport (map (entryResult demoDriver [cancelButton, submitButton])
            [submitBtnEntry, missingBtnEntry])) = 2"
proof -
  have h: "readLocatorFile demoEnv \<lparr>locatorFilePath = ''/locators.json''\<rparr> =
     Inr [submitBtnEntry, missingBtnEntry]" by code_simp
  have d: "getDriver demoEnv = Some demoDriver" by (simp add: demoEnv_def)
  have c: "fst (captureSnapshot demoEnv demoDriver) = Inr [cancelButton, submitButton]"
    by code_simp
  show ?thesis
    using batch_never_aborted [OF h, of demoDriver "[cancelButton, submitButton]"
        "buildReport (map (entryResult demoDriver [cancelButton, submitButton])
            [submitBtnEntry, missingBtnEntry])"] h d c
    by simp
qed

subsection \<open>C8: a bad locator file\<close>

text \<open>
  C8: when the locator file is missing, or its content does not parse as JSON, or the
  parsed value is not an array, the call fails with an error and its trace is empty: no
  page source is read and no element resolution is attempted.
\<close>

theorem bad_locator_file_fails_fast:
  assumes "\<not> existsSync env (path_resolve env (locatorFilePath args)) \<or>
     (\<exists>content. readFileSync env (path_resolve env (locatorFilePath args)) = Inr content \<and>
        (isl (JSON_parse env content) \<or> JSON_parse env content = Inr JNotArray))"
  shows "isl (fst (execute env args)) \<and> snd (execute env args) = []"
proof (cases "getDriver env")
  case None
  then show ?thesis by (rule execute_no_driver)
next
  case (Some driver)
  obtain err where "readLocatorFile env args = Inl err"
    using readLocatorFile_fails [OF assms] by (cases "readLocatorFile env args") auto
  then have "tryBlock env driver args = (Inl err, [])" by (rule tryBlock_file_error)
  then show ?thesis using Some by (simp add: execute_driver)
qed

theorem bad_locator_file_fails_fast_witness:
  "isl (fst (execute demoEnv \<lparr>locatorFilePath = ''/missing.json''\<rparr>)) \<and>
   snd (execute demoEnv \<lparr>locatorFilePath = ''/missing.json''\<rparr>) = [] \<and>
   isl (fst (execute demoEnv \<lparr>locatorFilePath = ''/broken.json''\<rparr>)) \<and>
   snd (execute demoEnv \<lparr>locatorFilePath = ''/broken.json''\<rparr>) = [] \<and>
   isl (fst (execute demoEnv \<lparr>locatorFilePath = ''/object.json''\<rparr>)) \<and>
   snd (execute demoEnv \<lparr>locatorFilePath = ''/object.json''\<rparr>) = []"
proof -
  have m: "\<not> existsSync demoEnv (path_resolve demoEnv
             (locatorFilePath \<lparr>locatorFilePath = ''/missing.json''\<rparr>))"
    by code_simp
  have b: "readFileSync demoEnv (path_resolve demoEnv
             (locatorFilePath \<lparr>locatorFilePath = ''/broken.json''\<rparr>)) = Inr ''['' \<and>
           isl (JSON_parse demoEnv ''['')"
    by code_simp
  have ob: "readFileSync demoEnv (path_resolve demoEnv
             (locatorFilePath \<lparr>locatorFilePath = ''/object.json''\<rparr>)) = Inr ''{object}'' \<and>
           JSON_parse demoEnv ''{object}'' = Inr JNotArray"
    by code_simp
  show ?thesis
    using bad_locator_file_fails_fast [of demoEnv "\<lparr>locatorFilePath = ''/missing.json''\<rparr>"]
      bad_locator_file_fails_fast [of demoEnv "\<lparr>locatorFilePath = ''/broken.json''\<rparr>"]
      bad_locator_file_fails_fast [of demoEnv "\<lparr>locatorFilePath = ''/object.json''\<rparr>"]
      m b ob
    by blast
qed

subsection \<open>C9: when the snapshot is captured\<close>

text \<open>
  The code captures the snapshot before the loop, whether or not an entry fails: for a
  locator file whose single entry resolves, the page source is read and the locators
  are generated before the resolution, and nothing is missing.
\<close>

theorem snapshot_without_failure_counterexample:
  "snd (execute demoEnv \<lparr>locatorFilePath = ''/found.json''\<rparr>) =
     [GetPageSource, ReadAutomationName, GenerateLocators,
      FindElement ''id'' ''com.app:id/submitBtn''] \<and>
   findElement demoDriver ''id'' ''com.app:id/submitBtn'' = Inr () \<and>
   \<not> isl (fst (execute demoEnv \<lparr>locatorFilePath = ''/found.json''\<rparr>)) \<and>
   missingCount (projr (fst (execute demoEnv \<lparr>locatorFilePath = ''/found.json''\<rparr>))) = 0"
  by code_simp

text \<open>
  C9, as amended: a validation run reads the page source at most once and generates
  locators at most once. A run that has a driver and a locator array reads the page
  source exactly once, before any element resolution and whether or not an entry
  fails: when it returns a report, its trace is the snapshot capture (page-source read,
  automation-name read, locator generation) followed by exactly one resolution per
  entry in input order, so that no entry, resolved or failed, causes a capture on its
  behalf; when it fails, its trace is a part of the capture alone.
\<close>

theorem snapshot_captured_once_up_front:
  "count_list (snd (execute env args)) GetPageSource \<le> 1 \<and>
   count_list (snd (execute env args)) GenerateLocators \<le> 1 \<and>
   (getDriver env = Some driver \<and> readLocatorFile env args = Inr userLocators \<longrightarrow>
      count_list (snd (execute env args)) GetPageSource = 1 \<and>
      (\<not> isl (fst (execute env args)) \<longrightarrow>
         snd (execute env args) =
           [GetPageSource, ReadAutomationName, GenerateLocators] @
           map (\<lambda>u. FindElement (LocatorStrategy u) (Locators u)) userLocators) \<and>
      (isl (fst (execute env args)) \<longrightarrow>
         snd (execute env args) \<in>
           set [[GetPageSource], [GetPageSource, ReadAutomationName],
                [GetPageSource, ReadAutomationName, GenerateLocators]]))"
proof -
  have nofind: "count_list (map (\<lambda>u. FindElement (LocatorStrategy u) (Locators u)) us) ev = 0"
    if "ev = GetPageSource \<or> ev = GenerateLocators" for us ev
    using that by (induction us) auto
  have run: "count_list (snd (execute env args)) GetPageSource = 1 \<and>
      count_list (snd (execute env args)) GenerateLocators \<le> 1 \<and>
      (\<not> isl (fst (execute env args)) \<longrightarrow>
         snd (execute env args) =
           [GetPageSource, ReadAutomationName, GenerateLocators] @
           map (\<lambda>u. FindElement (LocatorStrategy u) (Locators u)) us) \<and>
      (isl (fst (execute env args)) \<longrightarrow>
         snd (execute env args) \<in>
           set [[GetPageSource], [GetPageSource, ReadAutomationName],
                [GetPageSource, ReadAutomationName, GenerateLocators]])"
    if d: "getDriver env = Some d" and f: "readLocatorFile env args = Inr us" for d us
  proof (cases "fst (captureSnapshot env d)")
    case (Inl err)
    have ex: "execute env args =
        (Inl (newError (''Failed to check locators: '' @ errMessage err)),
         snd (captureSnapshot env d))"
      using tryBlock_snapshot_error [OF f Inl] d by (simp add: execute_driver)
    have "snd (captureSnapshot env d) \<in>
       set [[GetPageSource], [GetPageSource, ReadAutomationName],
            [GetPageSource, ReadAutomationName, GenerateLocators]]"
      using captureSnapshot_trace [of env d] by blast
    then show ?thesis unfolding ex by auto
  next
    case (Inr elems)
    have tr: "snd (captureSnapshot env d) = [GetPageSource, ReadAutomationName, GenerateLocators]"
      using captureSnapshot_trace [of env d elems] Inr by blast
    have ex: "execute env args =
        (Inr (buildReport (map (entryResult d elems) us)),
         [GetPageSource, ReadAutomationName, GenerateLocators] @
           map (\<lambda>u. FindElement (LocatorStrategy u) (Locators u)) us)"
      using tryBlock_report [OF f Inr] d tr by (simp add: execute_driver)
    show ?thesis unfolding ex by (simp add: nofind)
  qed
  have always: "count_list (snd (execute env args)) GetPageSource \<le> 1 \<and>
      count_list (snd (execute env args)) GenerateLocators \<le> 1"
  proof (cases "getDriver env")
    case None
    then show ?thesis using execute_no_driver [of env args] by simp
  next
    case (Some d)
    show ?thesis
    proof (cases "readLocatorFile env args")
      case (Inl err)
      then have "snd (execute env args) = []"
        using tryBlock_file_error [OF Inl, of d] Some by (simp add: execute_driver)
      then show ?thesis by simp
    next
      case (Inr us)
      then show ?thesis using run [OF Some Inr] by simp
    qed
  qed
  show ?thesis using always run by blast
qed

theorem snapshot_captured_once_up_front_witness:
  "getDriver demoEnv = Some demoDriver \<and>
   readLocatorFile demoEnv \<lparr>locatorFilePath = ''/locators.json''\<rparr> =
     Inr [submitBtnEntry, missingBtnEntry] \<and>
   \<not> isl (fst (execute demoEnv \<lparr>locatorFilePath = ''/locators.json''\<rparr>)) \<and>
   snd (execute demoEnv \<lparr>locatorFilePath = ''/locators.json''\<rparr>) =
     [GetPageSource, ReadAutomationName, GenerateLocators] @
     map (\<lambda>u. FindElement (LocatorStrategy u) (Locators u)) [submitBtnEntry, missingBtnEntry] \<and>
   count_list (snd (execute demoEnv \<lparr>locatorFilePath = ''/locators.json''\<rparr>)) GetPageSource = 1"
proof -
  have d: "getDriver demoEnv = Some demoDriver" by (simp add: demoEnv_def)
  have h: "readLocatorFile demoEnv \<lparr>locatorFilePath = ''/locators.json''\<rparr> =
     Inr [submitBtnEntry, missingBtnEntry]" by code_simp
  have ok: "\<not> isl (fst (execute demoEnv \<lparr>locatorFilePath = ''/locators.json''\<rparr>))"
    by code_simp
  show ?thesis
    using snapshot_captured_once_up_front [of demoEnv "\<lparr>locatorFilePath = ''/locators.json''\<rparr>"
        demoDriver "[submitBtnEntry, missingBtnEntry]"] d h ok
    by blast
qed

subsection \<open>C10: an entry with no label\<close>

text \<open>
  C10: if \<open>fieldName\<close>, \<open>remarks\<close> and \<open>pageElementName\<close> of an entry are all empty, no
  node matches it by text similarity, the alternates returned are those of the
  exact-reuse block alone, and every one of them is a candidate, of a strategy other
  than the tried one, of a node that has the failed selector among its candidates.
\<close>

theorem no_label_no_text_match:
  assumes "fieldName userLocator = []"
    and "remarks userLocator = []"
    and "pageElementName userLocator = []"
  shows "\<not> textSimilar userLocator element \<and>
         findAlternateLocators userLocator allCurrentPageElements =
           take 5 (uniqueAlternates
             (concat (map (\<lambda>e. pushExactMatch userLocator e []) allCurrentPageElements))) \<and>
         (\<forall>a \<in> set (findAlternateLocators userLocator allCurrentPageElements).
            \<exists>e \<in> set allCurrentPageElements.
              exactSelectorReuse userLocator e \<and>
              a \<in> alternateOf e `
                    {p \<in> set (el_locators e). fst p \<noteq> LocatorStrategy userLocator})"
proof -
  have nomatch: "\<not> textSimilar userLocator e" for e
    using assms by (simp add: textSimilar_def targetText_def jsOr_def)
  then have "elementAlternates userLocator = (\<lambda>e. pushExactMatch userLocator e [])"
    by (intro ext) (simp add: elementAlternates_def pushTextSimilar_def)
  then have raw: "collectAlternates userLocator allCurrentPageElements =
      concat (map (\<lambda>e. pushExactMatch userLocator e []) allCurrentPageElements)"
    by (simp add: collectAlternates_concat)
  have eq: "findAlternateLocators userLocator allCurrentPageElements =
           take 5 (uniqueAlternates
             (concat (map (\<lambda>e. pushExactMatch userLocator e []) allCurrentPageElements)))"
    by (simp add: findAlternateLocators_def raw)
  have prov: "\<exists>e \<in> set allCurrentPageElements.
              exactSelectorReuse userLocator e \<and>
              a \<in> alternateOf e `
                    {p \<in> set (el_locators e). fst p \<noteq> LocatorStrategy userLocator}"
    if "a \<in> set (findAlternateLocators userLocator allCurrentPageElements)" for a
  proof -
    have "a \<in> set (uniqueAlternates
             (concat (map (\<lambda>e. pushExactMatch userLocator e []) allCurrentPageElements)))"
      using that eq by (metis in_set_takeD)
    then have "a \<in> set (concat (map (\<lambda>e. pushExactMatch userLocator e []) allCurrentPageElements))"
      using uniqueAlternates_subset by blast
    then obtain e where e: "e \<in> set allCurrentPageElements"
        and a: "a \<in> set (pushExactMatch userLocator e [])"
      by auto
    from a have "exactSelectorReuse userLocator e \<and>
              a \<in> alternateOf e `
                    {p \<in> set (el_locators e). fst p \<noteq> LocatorStrategy userLocator}"
      by (simp add: pushExactMatch_set split: if_splits)
    with e show ?thesis by blast
  qed
  show ?thesis using nomatch eq prov by blast
qed

theorem no_label_no_text_match_witness:
  "fieldName typoEntry = [] \<and> remarks typoEntry = [] \<and> pageElementName typoEntry = [] \<and>
   \<not> textSimilar typoEntry submitButton \<and>
   findAlternateLocators typoEntry [cancelButton, submitButton] =
     take 5 (uniqueAlternates
       (concat (map (\<lambda>e. pushExactMatch typoEntry e []) [cancelButton, submitButton])))"
proof -
  have h1: "fieldName typoEntry = []" by code_simp
  have h2: "remarks typoEntry = []" by code_simp
  have h3: "pageElementName typoEntry = []" by code_simp
  show ?thesis
    using no_label_no_text_match [OF h1 h2 h3, of submitButton "[cancelButton, submitButton]"]
      h1 h2 h3 by blast
qed

end
